theory Spec2Isabelle
  imports Complex_Main "HOL-Library.Multiset"
begin

section \<open>Storage service (src/unnamed/part_004, the repository's src/services/storage.js)\<close>

subsection \<open>Numbers read from the host\<close>

text \<open>
  \<^verbatim>\<open>getDiskUsage\<close> parses the columns printed by \<^verbatim>\<open>df\<close> with \<^verbatim>\<open>parseInt\<close>, which yields
  an integer or \<^verbatim>\<open>NaN\<close>. Every comparison with \<^verbatim>\<open>NaN\<close> is false in JavaScript, so the
  value is kept as a datatype and the comparison \<^verbatim>\<open>a > b\<close> is written out.
\<close>

datatype number = Num int | NaN

fun gt :: "number \<Rightarrow> int \<Rightarrow> bool" where
  "gt (Num a) b = (a > b)"
| "gt NaN b = False"

record diskStats =
  total :: number
  used :: number
  available :: number
  percentUsed :: number

record repoStats =
  repoSize :: int
  storageMax :: int
  numObjects :: int
  repoPath :: string
  version :: string

text \<open>
  The outcome of an awaited call is a sum: \<open>Inl msg\<close> is a rejected promise whose error
  carries the message \<open>msg\<close>, \<open>Inr v\<close> a promise fulfilled with \<open>v\<close>.
  \<^verbatim>\<open>getRepoStats\<close> receives the outcome of the POST to \<^verbatim>\<open>/api/v0/repo/stat\<close> (a timeout
  of the request is one of its rejections) and replaces every rejection by its own error.
\<close>

definition getRepoStats :: "string + repoStats \<Rightarrow> string + repoStats" where
  "getRepoStats response =
     (case response of
        Inr data \<Rightarrow> Inr data
      | Inl error \<Rightarrow> Inl ''Failed to get IPFS repository statistics'')"

text \<open>
  \<^verbatim>\<open>getDiskUsage\<close> receives the outcome of running \<^verbatim>\<open>df\<close>, its four columns already
  read with \<^verbatim>\<open>parseInt\<close>.
\<close>

definition getDiskUsage :: "string + diskStats \<Rightarrow> string + diskStats" where
  "getDiskUsage executed =
     (case executed of
        Inr columns \<Rightarrow> Inr columns
      | Inl error \<Rightarrow> Inl ''Failed to get disk usage statistics'')"

subsection \<open>getStorageStats\<close>

record statusInfo =
  level :: string
  color :: string

record ipfsInfo =
  ipfs_repoSize :: int
  ipfs_storageMax :: int
  ipfs_numObjects :: int

record storageStats =
  disk :: diskStats
  ipfs :: ipfsInfo
  status :: statusInfo

text \<open>
  The health status starts as healthy/green and is overwritten by the two comparisons, in
  the order of the source. The fields \<^verbatim>\<open>percentOfDisk\<close> (a floating-point quotient printed
  with \<^verbatim>\<open>toFixed\<close>) and \<^verbatim>\<open>timestamp\<close> of the returned object play no part in the
  classification and are left out of the record.
\<close>

definition classify :: "diskStats \<Rightarrow> statusInfo" where
  "classify diskStats =
     (if gt (percentUsed diskStats) 80 then \<lparr>level = ''critical'', color = ''red''\<rparr>
      else if gt (percentUsed diskStats) 60 then \<lparr>level = ''warning'', color = ''yellow''\<rparr>
      else \<lparr>level = ''healthy'', color = ''green''\<rparr>)"

text \<open>
  \<^verbatim>\<open>Promise.all\<close> rejects as soon as one of the two calls rejects, and the catch block
  rethrows that error. When both reject, the one that surfaces is the earlier in time; the
  model reports the repository one.
\<close>

definition getStorageStats :: "string + repoStats \<Rightarrow> string + diskStats \<Rightarrow> string + storageStats" where
  "getStorageStats repo_response df_executed =
     (case getRepoStats repo_response of
        Inl error \<Rightarrow> Inl error
      | Inr repoStats \<Rightarrow>
          (case getDiskUsage df_executed of
             Inl error \<Rightarrow> Inl error
           | Inr diskStats \<Rightarrow>
               Inr \<lparr>disk = diskStats,
                    ipfs = \<lparr>ipfs_repoSize = repoSize repoStats,
                            ipfs_storageMax = storageMax repoStats,
                            ipfs_numObjects = numObjects repoStats\<rparr>,
                    status = classify diskStats\<rparr>))"

subsection \<open>GET /api/storage/health (src/unnamed/part_003, the repository's src/routes/storage.js)\<close>

record healthResponse =
  http_status :: nat
  health_success :: bool
  healthy :: bool
  health_status :: "statusInfo option"
  health_error :: "string option"

definition health_route :: "string + repoStats \<Rightarrow> string + diskStats \<Rightarrow> healthResponse" where
  "health_route repo_response df_executed =
     (case getStorageStats repo_response df_executed of
        Inr stats \<Rightarrow>
          \<lparr>http_status = 200, health_success = True,
           healthy = (level (status stats) \<noteq> ''critical''),
           health_status = Some (status stats), health_error = None\<rparr>
      | Inl error \<Rightarrow>
          \<lparr>http_status = 500, health_success = False, healthy = False,
           health_status = None, health_error = Some error\<rparr>)"

subsection \<open>Printing numbers\<close>

text \<open>
  A template literal prints an integer in decimal, with a minus sign when negative.
\<close>

fun digits :: "nat \<Rightarrow> string" where
  "digits n =
     (if n < 10 then [''0123456789'' ! n]
      else digits (n div 10) @ [''0123456789'' ! (n mod 10)])"

definition show_int :: "int \<Rightarrow> string" where
  "show_int i = (if i < 0 then ''-'' @ digits (nat (- i)) else digits (nat i))"

subsection \<open>unpinFiles\<close>

record unpinResults =
  success :: "string list"
  failed :: "(string \<times> string) list"
  skipped :: "string list"

datatype log_line = LogInfo string | LogError string

text \<open>
  The pinning service is a parameter: \<open>pin_rm node cid\<close> is the outcome of the POST to
  \<^verbatim>\<open>/api/v0/pin/rm\<close> for \<open>cid\<close> on a service in state \<open>node\<close>: \<open>None\<close> when the request
  succeeds, \<open>Some message\<close> when it is rejected (an HTTP error, a timeout), together with
  the state of the service afterwards.

  The body of the loop is one \<^verbatim>\<open>try\<close> block. With \<^verbatim>\<open>force\<close> unset it writes a log line
  and nothing else, then the request is sent in either case. The \<^verbatim>\<open>catch\<close> records the
  failure and the loop goes on with the next cid.
\<close>

fun unpinFiles_loop ::
  "('s \<Rightarrow> string \<Rightarrow> string option \<times> 's) \<Rightarrow> bool \<Rightarrow> string list \<Rightarrow>
     unpinResults \<Rightarrow> log_line list \<Rightarrow> 's \<Rightarrow> unpinResults \<times> log_line list \<times> 's" where
  "unpinFiles_loop pin_rm force [] results logged node = (results, logged, node)"
| "unpinFiles_loop pin_rm force (cid # cids) results logged node =
     (let log1 = (if \<not> force then logged @ [LogInfo (''Unpinning CID: '' @ cid)] else logged) in
      case pin_rm node cid of
        (None, node') \<Rightarrow>
          unpinFiles_loop pin_rm force cids
            (results\<lparr>success := success results @ [cid]\<rparr>)
            (log1 @ [LogInfo (''Successfully unpinned: '' @ cid)]) node'
      | (Some message, node') \<Rightarrow>
          unpinFiles_loop pin_rm force cids
            (results\<lparr>failed := failed results @ [(cid, message)]\<rparr>)
            (log1 @ [LogError (''Failed to unpin '' @ cid @ '':'')]) node')"

definition unpinFiles ::
  "('s \<Rightarrow> string \<Rightarrow> string option \<times> 's) \<Rightarrow> string list \<Rightarrow> bool \<Rightarrow> 's \<Rightarrow>
     unpinResults \<times> log_line list \<times> 's" where
  "unpinFiles pin_rm cids force node =
     unpinFiles_loop pin_rm force cids \<lparr>success = [], failed = [], skipped = []\<rparr> [] node"

text \<open>
  The requests a batch makes when no failure stops it: one per cid, in order, each sent to
  the service as the previous request left it, paired with its outcome.
\<close>

fun rm_requests ::
  "('s \<Rightarrow> string \<Rightarrow> string option \<times> 's) \<Rightarrow> 's \<Rightarrow> string list \<Rightarrow> (string \<times> string option) list" where
  "rm_requests pin_rm node [] = []"
| "rm_requests pin_rm node (cid # cids) =
     (cid, fst (pin_rm node cid)) # rm_requests pin_rm (snd (pin_rm node cid)) cids"

fun rejected :: "(string \<times> string option) list \<Rightarrow> (string \<times> string) list" where
  "rejected [] = []"
| "rejected ((cid, None) # as) = rejected as"
| "rejected ((cid, Some message) # as) = (cid, message) # rejected as"

text \<open>The constant the service declares for the age rule; no function of the file reads it.\<close>

definition MIN_AGE_HOURS :: int where
  "MIN_AGE_HOURS = 24"

subsection \<open>POST /api/storage/unpin (src/unnamed/part_003)\<close>

record unpinResponse =
  unpin_http_status :: nat
  unpin_success :: bool
  unpin_data :: "unpinResults option"
  unpin_message :: "string option"
  unpin_error :: "string option"

text \<open>
  The request body carries \<^verbatim>\<open>cids\<close> (\<open>None\<close> when the field is missing or not an array)
  and \<^verbatim>\<open>force\<close>, which defaults to false.
\<close>

definition unpin_route ::
  "('s \<Rightarrow> string \<Rightarrow> string option \<times> 's) \<Rightarrow> string list option \<Rightarrow> bool option \<Rightarrow> 's \<Rightarrow>
     unpinResponse \<times> 's" where
  "unpin_route pin_rm body_cids body_force node =
     (case body_cids of
        None \<Rightarrow>
          (\<lparr>unpin_http_status = 400, unpin_success = False, unpin_data = None,
            unpin_message = None,
            unpin_error = Some ''Invalid request: cids array is required''\<rparr>, node)
      | Some cids \<Rightarrow>
          if cids = [] then
            (\<lparr>unpin_http_status = 400, unpin_success = False, unpin_data = None,
              unpin_message = None,
              unpin_error = Some ''Invalid request: cids array is required''\<rparr>, node)
          else
            (let force = (case body_force of None \<Rightarrow> False | Some f \<Rightarrow> f);
                 (results, logged, node') = unpinFiles pin_rm cids force node
             in (\<lparr>unpin_http_status = 200, unpin_success = True, unpin_data = Some results,
                  unpin_message =
                    Some (''Unpinned '' @ show_int (int (length (success results))) @
                          '' files, '' @ show_int (int (length (failed results))) @ '' failed''),
                  unpin_error = None\<rparr>, node')))"

subsection \<open>A pinning service to run the code against\<close>

text \<open>
  The theorems about \<^verbatim>\<open>unpinFiles\<close> hold for every pinning service. To evaluate the code
  on concrete inputs, this is a small service: its state lists the recursive pins, each
  with the time in milliseconds at which it was pinned (which the real service does not
  report), and removing a pin fails when the cid is not pinned.
\<close>

type_synonym ipfs_node = "(string \<times> int) list"

definition ipfs_pin_rm :: "ipfs_node \<Rightarrow> string \<Rightarrow> string option \<times> ipfs_node" where
  "ipfs_pin_rm node cid =
     (if cid \<in> set (map fst node) then (None, filter (\<lambda>pin. fst pin \<noteq> cid) node)
      else (Some ''not pinned or pinned indirectly'', node))"

definition age :: "int \<Rightarrow> int \<Rightarrow> int" where
  "age now pinned_at = now - pinned_at"

subsection \<open>listPinnedFiles\<close>

record pinEntry =
  cid :: string
  pin_type :: string
  entry_size :: int
  timestamp :: int

text \<open>
  Time is a clock in milliseconds, passed through the calls: an awaited request takes the
  time the environment says and \<^verbatim>\<open>new Date()\<close> reads the clock. \<open>object_stat cid\<close> is the
  duration and the outcome of the POST to \<^verbatim>\<open>/api/v0/object/stat\<close>: a rejection, or the
  \<^verbatim>\<open>CumulativeSize\<close> of the reply (\<open>None\<close> when the reply has no such field). The
  timestamp is the clock value itself; \<^verbatim>\<open>toISOString\<close> only prints it.
\<close>

fun listPinnedFiles_loop ::
  "(string \<Rightarrow> nat \<times> (string + int option)) \<Rightarrow> (string \<times> string) list \<Rightarrow>
     pinEntry list \<Rightarrow> int \<Rightarrow> pinEntry list \<times> int" where
  "listPinnedFiles_loop object_stat [] pinList clock = (pinList, clock)"
| "listPinnedFiles_loop object_stat ((c, pinData_Type) # pins) pinList clock =
     (let clock' = clock + int (fst (object_stat c)) in
      case snd (object_stat c) of
        Inr CumulativeSize \<Rightarrow>
          listPinnedFiles_loop object_stat pins
            (pinList @ [\<lparr>cid = c, pin_type = pinData_Type,
                         entry_size = (case CumulativeSize of None \<Rightarrow> 0 | Some n \<Rightarrow> n),
                         timestamp = clock'\<rparr>]) clock'
      | Inl error \<Rightarrow>
          listPinnedFiles_loop object_stat pins
            (pinList @ [\<lparr>cid = c, pin_type = pinData_Type, entry_size = 0,
                         timestamp = clock'\<rparr>]) clock')"

text \<open>
  \<open>pin_ls\<close> is the duration and the outcome of the POST to \<^verbatim>\<open>/api/v0/pin/ls\<close>: the
  entries of \<^verbatim>\<open>Keys\<close> in order, each a cid with the \<^verbatim>\<open>Type\<close> of its pin, or \<open>None\<close> when
  the reply has no \<^verbatim>\<open>Keys\<close>, which the code reads as the empty object.
\<close>

definition listPinnedFiles ::
  "nat \<times> (string + (string \<times> string) list option) \<Rightarrow>
     (string \<Rightarrow> nat \<times> (string + int option)) \<Rightarrow> int \<Rightarrow> (string + pinEntry list) \<times> int" where
  "listPinnedFiles pin_ls object_stat clock =
     (case snd pin_ls of
        Inl error \<Rightarrow> (Inl ''Failed to list pinned files'', clock + int (fst pin_ls))
      | Inr Keys \<Rightarrow>
          (let pins = (case Keys of None \<Rightarrow> [] | Some entries \<Rightarrow> entries);
               (pinList, clock') =
                 listPinnedFiles_loop object_stat pins [] (clock + int (fst pin_ls))
           in (Inr pinList, clock')))"

subsection \<open>The dashboard's age rule (src/unnamed/part_002, the repository's public/js/storage-client.js)\<close>

text \<open>
  \<^verbatim>\<open>calculateAge\<close> floors the difference between the time of display and the entry's
  timestamp to whole hours, and \<^verbatim>\<open>displayPinnedFiles\<close> enables the unpin controls of an
  entry from 24 hours on.
\<close>

definition calculateAge_hours :: "int \<Rightarrow> int \<Rightarrow> int" where
  "calculateAge_hours now then_ms = (now - then_ms) div (1000 * 60 * 60)"

definition canUnpin :: "int \<Rightarrow> pinEntry \<Rightarrow> bool" where
  "canUnpin now file = (calculateAge_hours now (timestamp file) \<ge> 24)"

subsection \<open>runGarbageCollection\<close>

record gcResult =
  gc_success :: bool
  spaceFreed :: int
  beforeSize :: int
  afterSize :: int
  duration :: int

text \<open>
  The three awaited calls are made in sequence, each given as its duration and outcome:
  the repository statistics before, the POST to \<^verbatim>\<open>/api/v0/repo/gc\<close> (\<open>Some message\<close> when
  rejected), the repository statistics after. A rejection anywhere skips the rest and is
  rethrown with the prefix of the catch block. The clock is read at the start and after the
  last call; the \<^verbatim>\<open>timestamp\<close> field of the result is left out of the record.
\<close>

definition runGarbageCollection ::
  "nat \<times> (string + repoStats) \<Rightarrow> nat \<times> string option \<Rightarrow> nat \<times> (string + repoStats) \<Rightarrow> int \<Rightarrow>
     (string + gcResult) \<times> int" where
  "runGarbageCollection stat_before gc stat_after clock =
     (let startTime = clock;
          clock1 = clock + int (fst stat_before) in
      case getRepoStats (snd stat_before) of
        Inl error \<Rightarrow> (Inl (''Failed to run garbage collection: '' @ error), clock1)
      | Inr beforeStats \<Rightarrow>
          (let clock2 = clock1 + int (fst gc) in
           case snd gc of
             Some error \<Rightarrow> (Inl (''Failed to run garbage collection: '' @ error), clock2)
           | None \<Rightarrow>
               (let clock3 = clock2 + int (fst stat_after) in
                case getRepoStats (snd stat_after) of
                  Inl error \<Rightarrow> (Inl (''Failed to run garbage collection: '' @ error), clock3)
                | Inr afterStats \<Rightarrow>
                    (let duration = clock3 - startTime;
                         spaceFreed = repoSize beforeStats - repoSize afterStats
                     in (Inr \<lparr>gc_success = True, spaceFreed = spaceFreed,
                              beforeSize = repoSize beforeStats,
                              afterSize = repoSize afterStats,
                              duration = duration\<rparr>, clock3)))))"


text \<open>A reply of \<^verbatim>\<open>/api/v0/repo/stat\<close> with a given \<^verbatim>\<open>RepoSize\<close>, for concrete runs.\<close>

definition repo_of_size :: "int \<Rightarrow> repoStats" where
  "repo_of_size n =
     \<lparr>repoSize = n, storageMax = 10000000000, numObjects = 42,
      repoPath = ''/root/.ipfs'', version = ''fs-repo@15''\<rparr>"

section \<open>The temp_uploads collection (src/scripts/setup-temp-uploads-collection.js)\<close>

record index =
  index_name :: string
  index_key :: "(string \<times> int) list"
  unique :: bool
  expireAfterSeconds :: "nat option"

text \<open>
  The script drops every index but \<^verbatim>\<open>_id_\<close> and creates five, the last with
  \<^verbatim>\<open>expireAfterSeconds: 0\<close> on \<^verbatim>\<open>expires\<close>. None is created with a filter on other fields.
\<close>

definition setupTempUploadsCollection :: "index list \<Rightarrow> index list" where
  "setupTempUploadsCollection existingIndexes =
     filter (\<lambda>index. index_name index = ''_id_'') existingIndexes @
     [\<lparr>index_name = ''upload_id_unique'', index_key = [(''upload_id'', 1)],
       unique = True, expireAfterSeconds = None\<rparr>,
      \<lparr>index_name = ''owner_created'', index_key = [(''owner'', 1), (''created'', - 1)],
       unique = False, expireAfterSeconds = None\<rparr>,
      \<lparr>index_name = ''tus_finalized_status'',
       index_key = [(''tus_completed'', 1), (''finalized'', 1)],
       unique = False, expireAfterSeconds = None\<rparr>,
      \<lparr>index_name = ''video_id'', index_key = [(''video_id'', 1)],
       unique = False, expireAfterSeconds = None\<rparr>,
      \<lparr>index_name = ''expires_ttl'', index_key = [(''expires'', 1)],
       unique = False, expireAfterSeconds = Some 0\<rparr>]"

text \<open>
  Modelled from the spec: the schema of an upload session (src/models is not part of the
  sources). The fields are those the index keys name, with the types of the UploadSession
  of the data model; times are in milliseconds.
\<close>

record temp_upload =
  upload_id :: string
  owner :: string
  created :: int
  tus_completed :: bool
  finalized :: bool
  video_id :: "string option"
  expires :: int

definition date_field :: "string \<Rightarrow> temp_upload \<Rightarrow> int option" where
  "date_field field doc =
     (if field = ''expires'' then Some (expires doc)
      else if field = ''created'' then Some (created doc)
      else None)"

text \<open>
  The expiry the script sets up, as its header states it: the database deletes the
  documents whose \<^verbatim>\<open>expires\<close> is before the current time. In general an index with
  \<^verbatim>\<open>expireAfterSeconds\<close> on one date field expires a document that many seconds after the
  date; an index without it expires nothing.
\<close>

definition ttl_expired :: "index \<Rightarrow> int \<Rightarrow> temp_upload \<Rightarrow> bool" where
  "ttl_expired index now doc =
     (case expireAfterSeconds index of
        None \<Rightarrow> False
      | Some seconds \<Rightarrow>
          (case index_key index of
             [(field, direction)] \<Rightarrow>
               (case date_field field doc of
                  None \<Rightarrow> False
                | Some date \<Rightarrow> date + 1000 * int seconds < now)
           | _ \<Rightarrow> False))"

definition auto_deleted :: "index list \<Rightarrow> int \<Rightarrow> temp_upload \<Rightarrow> bool" where
  "auto_deleted indexes now doc = list_ex (\<lambda>index. ttl_expired index now doc) indexes"

section \<open>The status client of the integration guide (src/unnamed/part_001)\<close>

subsection \<open>The status response\<close>

text \<open>
  The functions read \<^verbatim>\<open>video.status\<close>, \<^verbatim>\<open>job.status\<close> and \<^verbatim>\<open>job.progress.pct\<close>; the job
  and each field below it may be absent (\<^verbatim>\<open>job?.progress?.pct\<close>). Percentages are
  rationals, \<^verbatim>\<open>x || 0\<close> turns an absent one into 0, and \<^verbatim>\<open>Math.round\<close> rounds halves up.
\<close>

record video =
  video_status :: string

record jobProgress =
  pct :: "rat option"
  download_pct :: "rat option"

record job =
  job_status :: string
  job_progress :: "jobProgress option"

definition progress_pct :: "job option \<Rightarrow> rat" where
  "progress_pct job =
     (case job of
        None \<Rightarrow> 0
      | Some j \<Rightarrow>
          (case job_progress j of
             None \<Rightarrow> 0
           | Some p \<Rightarrow> (case pct p of None \<Rightarrow> 0 | Some x \<Rightarrow> x)))"

definition Math_round :: "rat \<Rightarrow> int" where
  "Math_round x = \<lfloor>x + 1 / 2\<rfloor>"

definition job_status_is :: "job option \<Rightarrow> string \<Rightarrow> bool" where
  "job_status_is job s = (case job of None \<Rightarrow> False | Some j \<Rightarrow> job_status j = s)"

subsection \<open>Labels\<close>

text \<open>The pictographs that open the labels, as their UTF-8 bytes.\<close>

definition party_popper :: string where
  "party_popper = [CHR 0xF0, CHR 0x9F, CHR 0x8E, CHR 0x89]"

definition cross_mark :: string where
  "cross_mark = [CHR 0xE2, CHR 0x9D, CHR 0x8C]"

definition hourglass :: string where
  "hourglass = [CHR 0xE2, CHR 0x8F, CHR 0xB3]"

definition arrows :: string where
  "arrows = [CHR 0xF0, CHR 0x9F, CHR 0x94, CHR 0x84]"

definition check_mark :: string where
  "check_mark = [CHR 0xE2, CHR 0x9C, CHR 0x85]"

text \<open>
  \<^verbatim>\<open>getStatusLabel\<close> of the class \<^verbatim>\<open>ThreeSpeakUploader\<close>. The \<^verbatim>\<open>switch\<close> on the job status
  returns in three cases and falls through to the fallback otherwise.
\<close>

definition getStatusLabel :: "video \<Rightarrow> job option \<Rightarrow> string" where
  "getStatusLabel video job =
     (if video_status video = ''published'' \<or> video_status video = ''publish_manual''
      then party_popper @ '' Published to Hive!''
      else if video_status video = ''failed'' \<or> video_status video = ''encoding_failed'' \<or>
              job_status_is job ''failed''
      then cross_mark @ '' Encoding Failed''
      else if video_status video = ''uploaded''
      then hourglass @ '' Waiting for encoding...''
      else if job_status_is job ''queued''
      then hourglass @ '' Queued for encoding...''
      else if job_status_is job ''running''
      then arrows @ '' Encoding: '' @ show_int (Math_round (progress_pct job)) @ ''%''
      else if job_status_is job ''complete''
      then check_mark @ '' Encoding complete! Publishing...''
      else if video_status video = ''encoding_ipfs'' \<or>
              video_status video = ''encoding_preparing'' \<or>
              video_status video = ''encoding_progress''
      then arrows @ '' Processing...''
      else video_status video)"

text \<open>
  The stand-alone \<^verbatim>\<open>getStatusLabel\<close> of the polling section, which \<^verbatim>\<open>pollVideoStatus\<close>
  calls: the same order of checks, with other texts and another fallback.
\<close>

definition getStatusLabel2 :: "video \<Rightarrow> job option \<Rightarrow> string" where
  "getStatusLabel2 video job =
     (if video_status video = ''published'' \<or> video_status video = ''publish_manual''
      then party_popper @ '' Published to Hive!''
      else if video_status video = ''failed'' \<or> video_status video = ''encoding_failed'' \<or>
              job_status_is job ''failed''
      then cross_mark @ '' Encoding Failed''
      else if video_status video = ''uploaded''
      then hourglass @ '' Waiting for encoding to start...''
      else if job_status_is job ''queued''
      then hourglass @ '' Queued for encoding...''
      else if job_status_is job ''running''
      then arrows @ '' Encoding: '' @ show_int (Math_round (progress_pct job)) @ ''%''
      else if job_status_is job ''complete''
      then check_mark @ '' Encoding complete! Publishing to Hive...''
      else ''Processing ('' @ video_status video @ '')...'')"

subsection \<open>Polling\<close>

record statusUpdate =
  progress :: rat
  statusLabel :: string
  isComplete :: bool
  isFailed :: bool

text \<open>
  One firing of the timer of \<^verbatim>\<open>pollUntilPublished\<close>, given the outcome of \<^verbatim>\<open>getStatus\<close>:
  the object handed to \<^verbatim>\<open>onUpdate\<close> when a callback is given (the video and the job are
  passed on unchanged and not repeated here), and whether the timer is cleared. A failed
  request clears the timer.
\<close>

definition pollUntilPublished_update :: "video \<Rightarrow> job option \<Rightarrow> statusUpdate" where
  "pollUntilPublished_update video job =
     \<lparr>progress = progress_pct job,
      statusLabel = getStatusLabel video job,
      isComplete = (video_status video = ''published'' \<or> video_status video = ''publish_manual''),
      isFailed = (video_status video = ''failed'' \<or> video_status video = ''encoding_failed'' \<or>
                  job_status_is job ''failed'')\<rparr>"

definition pollUntilPublished_tick ::
  "string + video \<times> job option \<Rightarrow> statusUpdate option \<times> bool" where
  "pollUntilPublished_tick fetched =
     (case fetched of
        Inl error \<Rightarrow> (None, True)
      | Inr (video, job) \<Rightarrow>
          (Some (pollUntilPublished_update video job),
           (video_status video = ''published'' \<or> video_status video = ''publish_manual'') \<or>
           (video_status video = ''failed'' \<or> video_status video = ''encoding_failed'' \<or>
            job_status_is job ''failed'')))"

text \<open>
  \<^verbatim>\<open>pollVideoStatus\<close> polls at most 120 times. \<open>fetch n\<close> is the outcome of the \<open>n\<close>-th
  request; a failed request is logged and the loop goes on. The function returns the
  updates handed to \<^verbatim>\<open>onUpdate\<close> and its result.
\<close>

definition pollVideoStatus_update :: "video \<Rightarrow> job option \<Rightarrow> statusUpdate" where
  "pollVideoStatus_update video job =
     \<lparr>progress = progress_pct job,
      statusLabel = getStatusLabel2 video job,
      isComplete = (video_status video = ''published'' \<or> video_status video = ''publish_manual''),
      isFailed = (video_status video = ''failed'' \<or> video_status video = ''encoding_failed'' \<or>
                  job_status_is job ''failed'')\<rparr>"

datatype poll_result = PollSuccess video "job option" | PollFailure video "job option" | PollTimeout

fun pollVideoStatus_loop ::
  "(nat \<Rightarrow> string + video \<times> job option) \<Rightarrow> nat \<Rightarrow> nat \<Rightarrow> statusUpdate list \<Rightarrow>
     statusUpdate list \<times> poll_result" where
  "pollVideoStatus_loop fetch 0 attempts updates = (updates, PollTimeout)"
| "pollVideoStatus_loop fetch (Suc remaining) attempts updates =
     (case fetch (attempts + 1) of
        Inl error \<Rightarrow> pollVideoStatus_loop fetch remaining (attempts + 1) updates
      | Inr (video, job) \<Rightarrow>
          if video_status video = ''published'' \<or> video_status video = ''publish_manual''
          then (updates @ [pollVideoStatus_update video job], PollSuccess video job)
          else if video_status video = ''failed'' \<or> video_status video = ''encoding_failed'' \<or>
                  job_status_is job ''failed''
          then (updates @ [pollVideoStatus_update video job], PollFailure video job)
          else pollVideoStatus_loop fetch remaining (attempts + 1)
                 (updates @ [pollVideoStatus_update video job]))"

definition pollVideoStatus ::
  "(nat \<Rightarrow> string + video \<times> job option) \<Rightarrow> statusUpdate list \<times> poll_result" where
  "pollVideoStatus fetch = pollVideoStatus_loop fetch 120 0 []"

section \<open>Health classification\<close>








lemma health_route_error:
  "getStorageStats repo_response df_executed = Inl error \<Longrightarrow>
     health_route repo_response df_executed =
       \<lparr>http_status = 500, health_success = False, healthy = False,
        health_status = None, health_error = Some error\<rparr>"
  by (simp add: health_route_def)

section \<open>Bulk unpin\<close>

lemma unpinFiles_loop_spec:
  "unpinFiles_loop pin_rm force cids results logged node = (r, logged', node') \<Longrightarrow>
     success r = success results @ map fst (filter (\<lambda>a. snd a = None) (rm_requests pin_rm node cids)) \<and>
     failed r = failed results @ rejected (rm_requests pin_rm node cids) \<and>
     skipped r = skipped results \<and>
     node' = foldl (\<lambda>n c. snd (pin_rm n c)) node cids"
proof (induction cids arbitrary: results logged node)
  case Nil
  then show ?case by simp
next
  case (Cons c cs)
  obtain out n1 where step: "pin_rm node c = (out, n1)"
    by (cases "pin_rm node c")
  show ?case
  proof (cases out)
    case None
    with Cons.prems step have
      "unpinFiles_loop pin_rm force cs (results\<lparr>success := success results @ [c]\<rparr>)
         ((if \<not> force then logged @ [LogInfo (''Unpinning CID: '' @ c)] else logged) @
          [LogInfo (''Successfully unpinned: '' @ c)]) n1 = (r, logged', node')"
      by (simp add: Let_def)
    from Cons.IH[OF this] step None show ?thesis by simp
  next
    case (Some m)
    with Cons.prems step have
      "unpinFiles_loop pin_rm force cs (results\<lparr>failed := failed results @ [(c, m)]\<rparr>)
         ((if \<not> force then logged @ [LogInfo (''Unpinning CID: '' @ c)] else logged) @
          [LogError (''Failed to unpin '' @ c @ '':'')]) n1 = (r, logged', node')"
      by (simp add: Let_def)
    from Cons.IH[OF this] step Some show ?thesis by simp
  qed
qed

lemma rm_requests_cids: "map fst (rm_requests pin_rm node cids) = cids"
  by (induction cids arbitrary: node) auto

lemma mset_requests_split:
  "mset (map fst (filter (\<lambda>a. snd a = None) as)) + mset (map fst (rejected as)) = mset (map fst as)"
  by (induction as rule: rejected.induct) auto

lemma unpinFiles_results:
  assumes "unpinFiles pin_rm cids force node = (r, logged', node')"
  shows "r = \<lparr>success = map fst (filter (\<lambda>a. snd a = None) (rm_requests pin_rm node cids)),
              failed = rejected (rm_requests pin_rm node cids), skipped = []\<rparr>"
    and "node' = foldl (\<lambda>n c. snd (pin_rm n c)) node cids"
proof -
  from assms have "unpinFiles_loop pin_rm force cids \<lparr>success = [], failed = [], skipped = []\<rparr> [] node =
      (r, logged', node')"
    by (simp add: unpinFiles_def)
  from unpinFiles_loop_spec[OF this]
  show "r = \<lparr>success = map fst (filter (\<lambda>a. snd a = None) (rm_requests pin_rm node cids)),
              failed = rejected (rm_requests pin_rm node cids), skipped = []\<rparr>"
    and "node' = foldl (\<lambda>n c. snd (pin_rm n c)) node cids"
    by simp_all
qed

text \<open>
  C4. \<^verbatim>\<open>unpinFiles\<close> returns a result for every list of cids and every behaviour of the
  pinning service. The cids of its \<^verbatim>\<open>success\<close> and \<^verbatim>\<open>failed\<close> arrays together are the
  requested cids, each as often as it was requested (once, when the request names it
  once). One removal request is made per cid, in order, whatever the outcome of the
  earlier ones: \<^verbatim>\<open>success\<close> holds the cids whose request succeeded, \<^verbatim>\<open>failed\<close> those whose
  request was rejected, each with the message of its rejection, and the service ends in
  the state all the requests leave it in.
\<close>

theorem unpinFiles_every_cid_once:
  fixes pin_rm :: "'s \<Rightarrow> string \<Rightarrow> string option \<times> 's"
  shows "mset (success (fst (unpinFiles pin_rm cids force node))) +
           mset (map fst (failed (fst (unpinFiles pin_rm cids force node)))) = mset cids \<and>
         success (fst (unpinFiles pin_rm cids force node)) =
           map fst (filter (\<lambda>a. snd a = None) (rm_requests pin_rm node cids)) \<and>
         failed (fst (unpinFiles pin_rm cids force node)) = rejected (rm_requests pin_rm node cids) \<and>
         snd (snd (unpinFiles pin_rm cids force node)) = foldl (\<lambda>n c. snd (pin_rm n c)) node cids"
proof -
  obtain r logged' node' where run: "unpinFiles pin_rm cids force node = (r, logged', node')"
    by (cases "unpinFiles pin_rm cids force node")
  note res = unpinFiles_results[OF run]
  have s: "success r = map fst (filter (\<lambda>a. snd a = None) (rm_requests pin_rm node cids))"
    and f: "failed r = rejected (rm_requests pin_rm node cids)"
    using res(1) by simp_all
  have "mset (success r) + mset (map fst (failed r)) =
      mset (map fst (rm_requests pin_rm node cids))"
    unfolding s f by (rule mset_requests_split)
  then have "mset (success r) + mset (map fst (failed r)) = mset cids"
    by (simp only: rm_requests_cids)
  with s f res(2) run show ?thesis by simp
qed

text \<open>The first of two cids is pinned and the second is not: one success, one failure.\<close>

theorem unpinFiles_every_cid_once_witness:
  "mset (success (fst (unpinFiles ipfs_pin_rm [''QmA'', ''QmB''] False [(''QmA'', 0)]))) +
     mset (map fst (failed (fst (unpinFiles ipfs_pin_rm [''QmA'', ''QmB''] False [(''QmA'', 0)])))) =
     mset [''QmA'', ''QmB''] \<and>
   fst (unpinFiles ipfs_pin_rm [''QmA'', ''QmB''] False [(''QmA'', 0)]) =
     \<lparr>success = [''QmA''], failed = [(''QmB'', ''not pinned or pinned indirectly'')],
      skipped = []\<rparr>"
proof -
  have once: "mset (success (fst (unpinFiles ipfs_pin_rm [''QmA'', ''QmB''] False [(''QmA'', 0)]))) +
     mset (map fst (failed (fst (unpinFiles ipfs_pin_rm [''QmA'', ''QmB''] False [(''QmA'', 0)])))) =
     mset [''QmA'', ''QmB'']"
    using unpinFiles_every_cid_once[of ipfs_pin_rm "[''QmA'', ''QmB'']" False "[(''QmA'', 0)]"]
    by (rule conjunct1)
  have run: "fst (unpinFiles ipfs_pin_rm [''QmA'', ''QmB''] False [(''QmA'', 0)]) =
     \<lparr>success = [''QmA''], failed = [(''QmB'', ''not pinned or pinned indirectly'')],
      skipped = []\<rparr>"
    by (simp add: unpinFiles_def ipfs_pin_rm_def)
  from once run show ?thesis by (rule conjI)
qed

lemma unpin_route_ok:
  assumes "cids \<noteq> []"
  shows "unpin_http_status (fst (unpin_route pin_rm (Some cids) body_force node)) = 200 \<and>
         unpin_success (fst (unpin_route pin_rm (Some cids) body_force node)) \<and>
         unpin_data (fst (unpin_route pin_rm (Some cids) body_force node)) =
           Some (fst (unpinFiles pin_rm cids (case body_force of None \<Rightarrow> False | Some f \<Rightarrow> f) node))"
  using assms by (simp add: unpin_route_def Let_def split: prod.splits)

lemma unpinFiles_force_irrelevant:
  "fst (unpinFiles pin_rm cids False node) = fst (unpinFiles pin_rm cids True node) \<and>
   snd (snd (unpinFiles pin_rm cids False node)) = snd (snd (unpinFiles pin_rm cids True node))"
proof -
  obtain r1 l1 n1 where a: "unpinFiles pin_rm cids False node = (r1, l1, n1)"
    by (cases "unpinFiles pin_rm cids False node")
  obtain r2 l2 n2 where b: "unpinFiles pin_rm cids True node = (r2, l2, n2)"
    by (cases "unpinFiles pin_rm cids True node")
  from unpinFiles_results[OF a] unpinFiles_results[OF b] a b show ?thesis by simp
qed

text \<open>
  C3. The age rule is not enforced by \<^verbatim>\<open>unpinFiles\<close>. A cid pinned at time 0 is one hour
  old at time 3600000, less than \<^verbatim>\<open>MIN_AGE_HOURS\<close>; \<^verbatim>\<open>unpinFiles\<close> called on it with
  \<^verbatim>\<open>force\<close> false (the function reads no clock, so at any time) sends the removal request,
  reports the cid under \<^verbatim>\<open>success\<close>, skips nothing, and the pin is gone from the service.
\<close>

theorem unpinFiles_removes_young_pin:
  "age 3600000 0 < MIN_AGE_HOURS * 60 * 60 * 1000 \<and>
   unpinFiles ipfs_pin_rm [''QmYoung''] False [(''QmYoung'', 0)] =
     (\<lparr>success = [''QmYoung''], failed = [], skipped = []\<rparr>,
      [LogInfo ''Unpinning CID: QmYoung'', LogInfo ''Successfully unpinned: QmYoung''],
      [])"
  by (simp add: age_def MIN_AGE_HOURS_def unpinFiles_def ipfs_pin_rm_def)

section \<open>Listing the pins\<close>

lemma listPinnedFiles_loop_spec:
  "listPinnedFiles_loop object_stat pins pinList clock = (out, clock') \<Longrightarrow>
     map (\<lambda>e. (cid e, pin_type e, entry_size e)) out =
       map (\<lambda>e. (cid e, pin_type e, entry_size e)) pinList @
       map (\<lambda>(c, ty). (c, ty, case snd (object_stat c) of Inr (Some n) \<Rightarrow> n | _ \<Rightarrow> 0)) pins"
proof (induction pins arbitrary: pinList clock)
  case Nil
  then show ?case by simp
next
  case (Cons p ps)
  obtain c ty where p: "p = (c, ty)" by (cases p)
  show ?case
  proof (cases "snd (object_stat c)")
    case (Inl error)
    with Cons.prems p have "listPinnedFiles_loop object_stat ps
        (pinList @ [\<lparr>cid = c, pin_type = ty, entry_size = 0,
                     timestamp = clock + int (fst (object_stat c))\<rparr>])
        (clock + int (fst (object_stat c))) = (out, clock')"
      by (simp add: Let_def)
    from Cons.IH[OF this] p Inl show ?thesis by simp
  next
    case (Inr CumulativeSize)
    with Cons.prems p have "listPinnedFiles_loop object_stat ps
        (pinList @ [\<lparr>cid = c, pin_type = ty,
                     entry_size = (case CumulativeSize of None \<Rightarrow> 0 | Some n \<Rightarrow> n),
                     timestamp = clock + int (fst (object_stat c))\<rparr>])
        (clock + int (fst (object_stat c))) = (out, clock')"
      by (simp add: Let_def)
    from Cons.IH[OF this] p Inr show ?thesis by (simp split: option.splits)
  qed
qed

lemma listPinnedFiles_loop_timestamps:
  "listPinnedFiles_loop object_stat pins pinList clock = (out, clock') \<Longrightarrow>
     lo \<le> clock \<Longrightarrow> \<forall>e \<in> set pinList. lo \<le> timestamp e \<Longrightarrow>
     (\<forall>e \<in> set out. lo \<le> timestamp e) \<and> lo \<le> clock'"
proof (induction pins arbitrary: pinList clock)
  case Nil
  then show ?case by simp
next
  case (Cons p ps)
  obtain c ty where p: "p = (c, ty)" by (cases p)
  let ?clock1 = "clock + int (fst (object_stat c))"
  from Cons.prems(1) p obtain e where
    run: "listPinnedFiles_loop object_stat ps (pinList @ [e]) ?clock1 = (out, clock')"
    and e: "timestamp e = ?clock1"
    by (cases "snd (object_stat c)") (auto simp: Let_def)
  have "lo \<le> ?clock1" using Cons.prems(2) by simp
  moreover have "\<forall>x \<in> set (pinList @ [e]). lo \<le> timestamp x"
    using Cons.prems(2,3) e by auto
  ultimately show ?case using Cons.IH[OF run] by blast
qed

text \<open>
  C7. Whenever the pinning service answers the listing request, \<^verbatim>\<open>listPinnedFiles\<close>
  returns a list (it does not fail) with one entry per pin the service reported, in the
  same order, whatever the outcomes of the size lookups; an entry whose size lookup was
  rejected has size 0.
\<close>

theorem listPinnedFiles_lists_every_pin:
  "\<exists>pinList clock'.
     listPinnedFiles (latency, Inr Keys) object_stat clock = (Inr pinList, clock') \<and>
     map cid pinList = map fst (case Keys of None \<Rightarrow> [] | Some entries \<Rightarrow> entries) \<and>
     (\<forall>e \<in> set pinList. (\<exists>error. snd (object_stat (cid e)) = Inl error) \<longrightarrow> entry_size e = 0)"
proof -
  let ?pins = "case Keys of None \<Rightarrow> [] | Some entries \<Rightarrow> entries"
  obtain pinList clock' where
    loop: "listPinnedFiles_loop object_stat ?pins [] (clock + int latency) = (pinList, clock')"
    by (cases "listPinnedFiles_loop object_stat ?pins [] (clock + int latency)")
  then have run: "listPinnedFiles (latency, Inr Keys) object_stat clock = (Inr pinList, clock')"
    by (simp add: listPinnedFiles_def)
  from listPinnedFiles_loop_spec[OF loop]
  have spec: "map (\<lambda>e. (cid e, pin_type e, entry_size e)) pinList =
      map (\<lambda>(c, ty). (c, ty, case snd (object_stat c) of Inr (Some n) \<Rightarrow> n | _ \<Rightarrow> 0)) ?pins"
    by simp
  have "map cid pinList = map (fst \<circ> (\<lambda>e. (cid e, pin_type e, entry_size e))) pinList"
    by (simp add: comp_def)
  also have "\<dots> = map fst (map (\<lambda>(c, ty). (c, ty, case snd (object_stat c) of Inr (Some n) \<Rightarrow> n | _ \<Rightarrow> 0)) ?pins)"
    unfolding spec[symmetric] by simp
  also have "\<dots> = map fst ?pins"
    by (simp add: comp_def case_prod_beta)
  finally have cids: "map cid pinList = map fst ?pins" .
  have sizes: "entry_size e = 0"
    if e: "e \<in> set pinList" and fail: "snd (object_stat (cid e)) = Inl error" for e error
  proof -
    from e have "(cid e, pin_type e, entry_size e) \<in>
        set (map (\<lambda>e. (cid e, pin_type e, entry_size e)) pinList)"
      by force
    then obtain c ty where "(c, ty) \<in> set ?pins" and
      "(cid e, pin_type e, entry_size e) =
         (c, ty, case snd (object_stat c) of Inr (Some n) \<Rightarrow> n | _ \<Rightarrow> 0)"
      unfolding spec by auto
    with fail show ?thesis by simp
  qed
  from run cids sizes show ?thesis by blast
qed

text \<open>Two pins, the size lookup of the second timing out: both are listed.\<close>

theorem listPinnedFiles_lists_every_pin_witness:
  "fst (listPinnedFiles (20, Inr (Some [(''QmA'', ''recursive''), (''QmB'', ''recursive'')]))
        (\<lambda>c. if c = ''QmB'' then (5000, Inl ''timeout of 5000ms exceeded'')
              else (5, Inr (Some 1000))) 0) =
     Inr [\<lparr>cid = ''QmA'', pin_type = ''recursive'', entry_size = 1000, timestamp = 25\<rparr>,
          \<lparr>cid = ''QmB'', pin_type = ''recursive'', entry_size = 0, timestamp = 5025\<rparr>]"
proof -
  let ?stat = "\<lambda>c. if c = ''QmB'' then (5000::nat, Inl ''timeout of 5000ms exceeded'')
              else (5, Inr (Some (1000::int)))"
  from listPinnedFiles_lists_every_pin
    [of 20 "Some [(''QmA'', ''recursive''), (''QmB'', ''recursive'')]" ?stat 0]
  obtain pinList clock' where
    "listPinnedFiles (20, Inr (Some [(''QmA'', ''recursive''), (''QmB'', ''recursive'')])) ?stat 0 =
       (Inr pinList, clock')"
    and "map cid pinList = [''QmA'', ''QmB'']"
    and "\<forall>e \<in> set pinList. (\<exists>error. snd (?stat (cid e)) = Inl error) \<longrightarrow> entry_size e = 0"
    by auto
  then show ?thesis
    by (simp add: listPinnedFiles_def)
qed

lemma listPinnedFiles_timestamps_fresh:
  assumes "listPinnedFiles pin_ls object_stat clock = (Inr pinList, clock')"
  shows "\<forall>e \<in> set pinList. clock \<le> timestamp e"
proof -
  from assms obtain Keys where k: "snd pin_ls = Inr Keys"
    by (cases "snd pin_ls") (auto simp: listPinnedFiles_def)
  with assms have "listPinnedFiles_loop object_stat
      (case Keys of None \<Rightarrow> [] | Some entries \<Rightarrow> entries) [] (clock + int (fst pin_ls)) =
      (pinList, clock')"
    by (auto simp: listPinnedFiles_def Let_def split: prod.splits)
  from listPinnedFiles_loop_timestamps[OF this, of clock] show ?thesis by simp
qed

text \<open>
  C6. The timestamp of a listing is not held across calls. The same pin, listed at time 0
  and again 25 hours later (90000000 ms), is reported with timestamp 25 the first time
  and 90000025 the second: each listing stamps the entry with the clock at that listing.
  Measured from the first observation the pin is 25 hours old at the second listing;
  measured from the timestamp the second listing reports, as the dashboard does, it is 0
  hours old and its unpin control stays disabled.
\<close>

theorem listPinnedFiles_timestamp_not_stable:
  "fst (listPinnedFiles (20, Inr (Some [(''QmA'', ''recursive'')])) (\<lambda>c. (5, Inr (Some 1000))) 0) =
     Inr [\<lparr>cid = ''QmA'', pin_type = ''recursive'', entry_size = 1000, timestamp = 25\<rparr>] \<and>
   fst (listPinnedFiles (20, Inr (Some [(''QmA'', ''recursive'')])) (\<lambda>c. (5, Inr (Some 1000)))
        90000000) =
     Inr [\<lparr>cid = ''QmA'', pin_type = ''recursive'', entry_size = 1000, timestamp = 90000025\<rparr>] \<and>
   calculateAge_hours 90000025 25 = 25 \<and>
   calculateAge_hours 90000025 90000025 = 0 \<and>
   \<not> canUnpin 90000025
       \<lparr>cid = ''QmA'', pin_type = ''recursive'', entry_size = 1000, timestamp = 90000025\<rparr>"
  by (simp add: listPinnedFiles_def calculateAge_hours_def canUnpin_def)


section \<open>Garbage collection\<close>

lemma runGarbageCollection_ok:
  "runGarbageCollection (d1, Inr beforeStats) (d2, None) (d3, Inr afterStats) clock =
     (Inr \<lparr>gc_success = True, spaceFreed = repoSize beforeStats - repoSize afterStats,
           beforeSize = repoSize beforeStats, afterSize = repoSize afterStats,
           duration = int d1 + int d2 + int d3\<rparr>,
      clock + int d1 + int d2 + int d3)"
  by (simp add: runGarbageCollection_def getRepoStats_def Let_def)

text \<open>
  C8, as the code has it. When the two snapshots and the collection succeed,
  \<^verbatim>\<open>runGarbageCollection\<close> returns \<^verbatim>\<open>spaceFreed\<close> equal to the size before minus the size
  after, as it is (zero when nothing was freed, negative when the repository grew), with
  both sizes and the time elapsed between its start and its end. It fails exactly when one
  of its three upstream calls is rejected.
\<close>

theorem runGarbageCollection_reports_difference:
  "(stat_before = Inr beforeStats \<and> gc = None \<and> stat_after = Inr afterStats \<longrightarrow>
      (\<exists>result clock'.
         runGarbageCollection (d1, stat_before) (d2, gc) (d3, stat_after) clock =
           (Inr result, clock') \<and>
         spaceFreed result = repoSize beforeStats - repoSize afterStats \<and>
         beforeSize result = repoSize beforeStats \<and> afterSize result = repoSize afterStats \<and>
         duration result = clock' - clock \<and> duration result = int d1 + int d2 + int d3)) \<and>
   (isl (fst (runGarbageCollection (d1, stat_before) (d2, gc) (d3, stat_after) clock)) =
      (isl stat_before \<or> gc \<noteq> None \<or> isl stat_after))"
proof (intro conjI impI)
  assume "stat_before = Inr beforeStats \<and> gc = None \<and> stat_after = Inr afterStats"
  then show "\<exists>result clock'.
         runGarbageCollection (d1, stat_before) (d2, gc) (d3, stat_after) clock =
           (Inr result, clock') \<and>
         spaceFreed result = repoSize beforeStats - repoSize afterStats \<and>
         beforeSize result = repoSize beforeStats \<and> afterSize result = repoSize afterStats \<and>
         duration result = clock' - clock \<and> duration result = int d1 + int d2 + int d3"
    by (simp add: runGarbageCollection_ok)
next
  show "isl (fst (runGarbageCollection (d1, stat_before) (d2, gc) (d3, stat_after) clock)) =
      (isl stat_before \<or> gc \<noteq> None \<or> isl stat_after)"
    by (cases stat_before; cases gc; cases stat_after)
      (simp_all add: runGarbageCollection_def getRepoStats_def Let_def)
qed

text \<open>A collection that frees nothing succeeds and reports 0.\<close>

theorem runGarbageCollection_reports_difference_witness:
  "fst (runGarbageCollection (10, Inr (repo_of_size 100)) (1000, None) (10, Inr (repo_of_size 100)) 0) =
     Inr \<lparr>gc_success = True, spaceFreed = 0, beforeSize = 100, afterSize = 100, duration = 1020\<rparr>"
proof -
  have h: "Inr (repo_of_size 100) = (Inr (repo_of_size 100) :: string + repoStats) \<and>
      (None :: string option) = None \<and>
      Inr (repo_of_size 100) = (Inr (repo_of_size 100) :: string + repoStats)"
    by simp
  from runGarbageCollection_reports_difference
    [of "Inr (repo_of_size 100)" "repo_of_size 100" None "Inr (repo_of_size 100)"
        "repo_of_size 100" 10 1000 10 0] h
  obtain result clock' where
    "runGarbageCollection (10, Inr (repo_of_size 100)) (1000, None) (10, Inr (repo_of_size 100)) 0 =
       (Inr result, clock')"
    and "spaceFreed result = repoSize (repo_of_size 100) - repoSize (repo_of_size 100)"
    by blast
  then show ?thesis
    by (simp add: runGarbageCollection_ok repo_of_size_def)
qed

text \<open>
  C8, as stated, fails: with 100 bytes before and 150 after, the operation succeeds and
  the value reported is -50, not a value clamped at zero.
\<close>

theorem runGarbageCollection_negative_not_clamped:
  "fst (runGarbageCollection (10, Inr (repo_of_size 100)) (1000, None) (10, Inr (repo_of_size 150)) 0) =
     Inr \<lparr>gc_success = True, spaceFreed = - 50, beforeSize = 100, afterSize = 150, duration = 1020\<rparr> \<and>
   spaceFreed (projr (fst (runGarbageCollection (10, Inr (repo_of_size 100)) (1000, None)
                             (10, Inr (repo_of_size 150)) 0))) < 0"
  by (simp add: runGarbageCollection_ok repo_of_size_def)

section \<open>Expiry of upload sessions\<close>

lemma expires_ttl_only:
  "auto_deleted (setupTempUploadsCollection []) now doc = (expires doc < now)"
  by (simp add: auto_deleted_def setupTempUploadsCollection_def ttl_expired_def date_field_def)

text \<open>
  C9, as the code has it. With the indexes the script leaves on the collection (the
  \<^verbatim>\<open>_id_\<close> index it keeps being no expiry index), an upload session is deleted by the
  database exactly when its \<^verbatim>\<open>expires\<close> is before the current time, whatever its
  \<^verbatim>\<open>finalized\<close> flag.
\<close>

theorem auto_deleted_iff_expired:
  assumes "\<forall>index \<in> set existingIndexes. index_name index = ''_id_'' \<longrightarrow> expireAfterSeconds index = None"
  shows "auto_deleted (setupTempUploadsCollection existingIndexes) now doc = (expires doc < now)"
proof -
  have "\<not> list_ex (\<lambda>index. ttl_expired index now doc)
            (filter (\<lambda>index. index_name index = ''_id_'') existingIndexes)"
    using assms by (auto simp: list_ex_iff ttl_expired_def)
  then show ?thesis
    by (simp add: auto_deleted_def setupTempUploadsCollection_def ttl_expired_def date_field_def)
qed

text \<open>
  At time 1000 a session that expired at 999 is deleted, and a finalized one expiring at
  1000 is still kept.
\<close>

theorem auto_deleted_iff_expired_witness:
  "auto_deleted
     (setupTempUploadsCollection
        [\<lparr>index_name = ''_id_'', index_key = [(''_id'', 1)], unique = False,
          expireAfterSeconds = None\<rparr>])
     1000
     \<lparr>upload_id = ''u1'', owner = ''alice'', created = 0, tus_completed = True,
      finalized = False, video_id = None, expires = 999\<rparr> \<and>
   \<not> auto_deleted
     (setupTempUploadsCollection
        [\<lparr>index_name = ''_id_'', index_key = [(''_id'', 1)], unique = False,
          expireAfterSeconds = None\<rparr>])
     1000
     \<lparr>upload_id = ''u2'', owner = ''alice'', created = 0, tus_completed = True,
      finalized = True, video_id = Some ''v2'', expires = 1000\<rparr>"
proof -
  have h: "\<forall>index \<in> set [\<lparr>index_name = ''_id_'', index_key = [(''_id'', 1)], unique = False,
          expireAfterSeconds = None\<rparr>]. index_name index = ''_id_'' \<longrightarrow> expireAfterSeconds index = None"
    by simp
  show ?thesis
    unfolding auto_deleted_iff_expired[OF h] by simp
qed

text \<open>
  C9, as stated, fails: a finalized session whose \<^verbatim>\<open>expires\<close> (six hours after its
  creation) has passed is deleted by the expiry index.
\<close>

theorem finalized_session_auto_deleted:
  "finalized \<lparr>upload_id = ''u1'', owner = ''alice'', created = 0, tus_completed = True,
              finalized = True, video_id = Some ''v1'', expires = 21600000\<rparr> \<and>
   auto_deleted (setupTempUploadsCollection []) 21600001
     \<lparr>upload_id = ''u1'', owner = ''alice'', created = 0, tus_completed = True,
      finalized = True, video_id = Some ''v1'', expires = 21600000\<rparr>"
  by (simp add: expires_ttl_only)

section \<open>Status client\<close>

text \<open>
  C1, as the code has it. For a video whose status is published or publish_manual, and
  any job or none, the update handed to \<^verbatim>\<open>onUpdate\<close> has \<^verbatim>\<open>isComplete\<close> true and the label
  of success, which \<^verbatim>\<open>getStatusLabel\<close> returns before looking at anything else, and
  polling stops. The published check comes first among the rules of the label only: the
  flag \<^verbatim>\<open>isFailed\<close> is computed on its own, and for such a video it is true exactly when
  the job reports failed.
\<close>

theorem published_is_complete:
  assumes "video_status video = ''published'' \<or> video_status video = ''publish_manual''"
  shows "isComplete (pollUntilPublished_update video job) \<and>
         statusLabel (pollUntilPublished_update video job) = party_popper @ '' Published to Hive!'' \<and>
         getStatusLabel video job = party_popper @ '' Published to Hive!'' \<and>
         pollUntilPublished_tick (Inr (video, job)) =
           (Some (pollUntilPublished_update video job), True) \<and>
         isFailed (pollUntilPublished_update video job) = job_status_is job ''failed''"
  using assms
  by (auto simp: pollUntilPublished_update_def getStatusLabel_def pollUntilPublished_tick_def)

text \<open>
  C1, as stated, fails: for a published video whose job reports failed, the update has
  \<^verbatim>\<open>isComplete\<close> true and the label of success, and \<^verbatim>\<open>isFailed\<close> true as well; the
  published check does not switch the failure rule off.
\<close>

theorem published_with_failed_job_is_failed:
  "isComplete (pollUntilPublished_update \<lparr>video_status = ''published''\<rparr>
                 (Some \<lparr>job_status = ''failed'', job_progress = None\<rparr>)) \<and>
   isFailed (pollUntilPublished_update \<lparr>video_status = ''published''\<rparr>
               (Some \<lparr>job_status = ''failed'', job_progress = None\<rparr>))"
  by (simp add: pollUntilPublished_update_def job_status_is_def)

text \<open>A published video whose job reports failed, and a publish_manual video without job.\<close>

theorem published_is_complete_witness:
  "isComplete (pollUntilPublished_update \<lparr>video_status = ''published''\<rparr>
                 (Some \<lparr>job_status = ''failed'', job_progress = None\<rparr>)) \<and>
   isComplete (pollUntilPublished_update \<lparr>video_status = ''publish_manual''\<rparr> None) \<and>
   statusLabel (pollUntilPublished_update \<lparr>video_status = ''published''\<rparr>
                 (Some \<lparr>job_status = ''failed'', job_progress = None\<rparr>)) =
     party_popper @ '' Published to Hive!''"
proof -
  have h1: "video_status \<lparr>video_status = ''published''\<rparr> = ''published'' \<or>
            video_status \<lparr>video_status = ''published''\<rparr> = ''publish_manual''"
    by simp
  have h2: "video_status \<lparr>video_status = ''publish_manual''\<rparr> = ''published'' \<or>
            video_status \<lparr>video_status = ''publish_manual''\<rparr> = ''publish_manual''"
    by simp
  from published_is_complete[OF h1, of "Some \<lparr>job_status = ''failed'', job_progress = None\<rparr>"]
    published_is_complete[OF h2, of None]
  show ?thesis by blast
qed

text \<open>
  C2. For a video in status encoding_ipfs whose job reports complete, the updates of both
  polling functions have \<^verbatim>\<open>isComplete\<close> false, the label says that publishing is still
  going on, and the timer of \<^verbatim>\<open>pollUntilPublished\<close> is not cleared.
\<close>

theorem job_complete_is_not_done:
  assumes "video_status video = ''encoding_ipfs''" and "job_status job = ''complete''"
  shows "\<not> isComplete (pollUntilPublished_update video (Some job)) \<and>
         \<not> isComplete (pollVideoStatus_update video (Some job)) \<and>
         statusLabel (pollUntilPublished_update video (Some job)) =
           check_mark @ '' Encoding complete! Publishing...'' \<and>
         pollUntilPublished_tick (Inr (video, Some job)) =
           (Some (pollUntilPublished_update video (Some job)), False)"
  using assms
  by (simp add: pollUntilPublished_update_def pollVideoStatus_update_def getStatusLabel_def
      pollUntilPublished_tick_def job_status_is_def)

theorem job_complete_is_not_done_witness:
  "\<not> isComplete (pollUntilPublished_update \<lparr>video_status = ''encoding_ipfs''\<rparr>
       (Some \<lparr>job_status = ''complete'',
              job_progress = Some \<lparr>pct = Some 100, download_pct = Some 100\<rparr>\<rparr>)) \<and>
   \<not> isComplete (pollVideoStatus_update \<lparr>video_status = ''encoding_ipfs''\<rparr>
       (Some \<lparr>job_status = ''complete'',
              job_progress = Some \<lparr>pct = Some 100, download_pct = Some 100\<rparr>\<rparr>))"
proof -
  have h1: "video_status \<lparr>video_status = ''encoding_ipfs''\<rparr> = ''encoding_ipfs''"
    by simp
  have h2: "job_status \<lparr>job_status = ''complete'',
              job_progress = Some \<lparr>pct = Some 100, download_pct = Some 100\<rparr>\<rparr> = ''complete''"
    by simp
  from job_complete_is_not_done[OF h1 h2] show ?thesis by blast
qed

lemma pollVideoStatus_loop_keeps_polling:
  assumes "\<And>n. fetch n = Inr (video, Some job)"
    and "video_status video = ''encoding_ipfs''" and "job_status job = ''complete''"
  shows "pollVideoStatus_loop fetch remaining attempts updates =
          (updates @ replicate remaining (pollVideoStatus_update video (Some job)), PollTimeout)"
proof (induction remaining arbitrary: attempts updates)
  case 0
  then show ?case by simp
next
  case (Suc k)
  have "pollVideoStatus_loop fetch (Suc k) attempts updates =
      pollVideoStatus_loop fetch k (attempts + 1) (updates @ [pollVideoStatus_update video (Some job)])"
    using assms by (simp add: job_status_is_def)
  then show ?case
    by (simp add: Suc.IH replicate_app_Cons_same)
qed

lemma pollVideoStatus_times_out_while_unpublished:
  assumes "\<And>n. fetch n = Inr (video, Some job)"
    and "video_status video = ''encoding_ipfs''" and "job_status job = ''complete''"
  shows "pollVideoStatus fetch =
          (replicate 120 (pollVideoStatus_update video (Some job)), PollTimeout)"
  using pollVideoStatus_loop_keeps_polling[OF assms, where remaining = 120 and attempts = 0 and updates = "[]"]
  by (simp add: pollVideoStatus_def)


end
